theory Spec2Isabelle
  imports Complex_Main
begin

section \<open>Text primitives\<close>

text \<open>
  Python's \<open>str\<close> is a sequence of code points. Texts are modelled as \<open>string\<close>, a list of
  characters with code points below 256; on that range the functions below follow the
  built-in \<open>str\<close> methods: \<open>isspace\<close>, \<open>lower\<close>, \<open>strip\<close>, \<open>splitlines\<close> and the
  substring test \<open>sub in s\<close>.
\<close>

definition code_point :: "char \<Rightarrow> nat" where
  "code_point c = of_char c"

definition isspace :: "char \<Rightarrow> bool" where
  "isspace c = (let n = code_point c in
     (9 \<le> n \<and> n \<le> 13) \<or> (28 \<le> n \<and> n \<le> 32) \<or> n = 133 \<or> n = 160)"

definition is_linebreak :: "char \<Rightarrow> bool" where
  "is_linebreak c = (let n = code_point c in
     (10 \<le> n \<and> n \<le> 13) \<or> (28 \<le> n \<and> n \<le> 30) \<or> n = 133)"

definition lower_char :: "char \<Rightarrow> char" where
  "lower_char c = (let n = code_point c in
     if (65 \<le> n \<and> n \<le> 90) \<or> (192 \<le> n \<and> n \<le> 222 \<and> n \<noteq> 215)
     then char_of (n + 32) else c)"

definition lower :: "string \<Rightarrow> string" where
  "lower s = map lower_char s"

definition strip :: "string \<Rightarrow> string" where
  "strip s = rev (dropWhile isspace (rev (dropWhile isspace s)))"

text \<open>
  \<open>s.splitlines()\<close>: the text is cut at every line boundary, \<open>\r\n\<close> counting as one
  boundary; the boundaries are dropped, and a text that ends with a boundary has no empty
  last line. The first argument is the line read so far, in reverse.
\<close>

fun splitlines_from :: "string \<Rightarrow> string \<Rightarrow> string list" where
  "splitlines_from cur [] = (if cur = [] then [] else [rev cur])"
| "splitlines_from cur [c] =
     (if is_linebreak c then [rev cur] else [rev (c # cur)])"
| "splitlines_from cur (c # d # cs) =
     (if code_point c = 13 \<and> code_point d = 10 then rev cur # splitlines_from [] cs
      else if is_linebreak c then rev cur # splitlines_from [] (d # cs)
      else splitlines_from (c # cur) (d # cs))"

definition splitlines :: "string \<Rightarrow> string list" where
  "splitlines s = splitlines_from [] s"

fun startswith :: "string \<Rightarrow> string \<Rightarrow> bool" where
  "startswith s [] = True"
| "startswith [] (p # ps) = False"
| "startswith (c # cs) (p # ps) = (c = p \<and> startswith cs ps)"

text \<open>\<open>str_in sub s\<close> is Python's \<open>sub in s\<close> on strings.\<close>

fun str_in :: "string \<Rightarrow> string \<Rightarrow> bool" where
  "str_in sub [] = (sub = [])"
| "str_in sub (c # cs) = (startswith (c # cs) sub \<or> str_in sub cs)"

section \<open>Content-type classifier (commands/pipe.py)\<close>

definition ERROR_PATTERNS :: "string list" where
  "ERROR_PATTERNS =
    [''Traceback (most recent call last)'',
     ''Error:'',
     ''Exception:'',
     ''error:'',
     ''FATAL'',
     ''FAIL'',
     ''panic:'',
     ''Segmentation fault'',
     ''ECONNREFUSED'',
     ''ENOENT'',
     ''EPERM'',
     ''errno'',
     ''SyntaxError'',
     ''TypeError'',
     ''ValueError'',
     ''KeyError'',
     ''IndexError'',
     ''AttributeError'',
     ''ImportError'',
     ''ModuleNotFoundError'',
     ''FileNotFoundError'',
     ''PermissionError'',
     ''RuntimeError'',
     ''NullPointerException'',
     ''ClassNotFoundException'',
     ''ArrayIndexOutOfBoundsException'',
     ''undefined is not a function'',
     ''Cannot read propert'',
     ''is not defined'',
     ''command not found'',
     ''No such file or directory'',
     ''Permission denied'']"

definition code_indicators :: "string list" where
  "code_indicators =
    [''def '', ''class '', ''import '', ''from '',
     ''function '', ''const '', ''let '', ''var '',
     ''func '', ''package '',
     ''public '', ''private '', ''static '',
     ''#include'', ''int main'']"

text \<open>
  The two nested \<open>for\<close> loops of \<open>_detect_content_type\<close> that compute \<open>error_score\<close>:
  the inner loop runs over the patterns for one line, the outer loop over the lines; the
  counter is threaded through both.
\<close>

fun pattern_loop :: "string list \<Rightarrow> string \<Rightarrow> nat \<Rightarrow> nat" where
  "pattern_loop [] line error_score = error_score"
| "pattern_loop (pattern # ps) line error_score =
     pattern_loop ps line
       (if str_in (lower pattern) (lower line) then error_score + 1 else error_score)"

fun line_loop :: "string list \<Rightarrow> nat \<Rightarrow> nat" where
  "line_loop [] error_score = error_score"
| "line_loop (line # ls) error_score =
     line_loop ls (pattern_loop ERROR_PATTERNS line error_score)"

definition error_score_of :: "string list \<Rightarrow> nat" where
  "error_score_of ls = line_loop ls 0"

text \<open>\<open>sum(1 for line in lines for ind in code_indicators if ind in line)\<close>\<close>

definition code_score_of :: "string list \<Rightarrow> nat" where
  "code_score_of ls =
     sum_list [1. line \<leftarrow> ls, ind \<leftarrow> code_indicators, str_in ind line]"

text \<open>
  The two ratio tests divide Python integers into floats and compare with the literals
  \<open>0.05\<close> and \<open>0.1\<close>. They are modelled in exact arithmetic; correctly rounded division
  agrees with the exact comparison for every text of fewer than \<open>10^15\<close> lines.
\<close>

definition detect_content_type :: "string \<Rightarrow> string" where
  "detect_content_type content =
    (let ls = splitlines (strip content) in
     if ls = [] then ''unknown''
     else
       let error_score = error_score_of ls in
       if error_score > 0 \<and> real error_score / real (length ls) > 5 / 100 then ''error''
       else
         let code_score = code_score_of ls in
         if code_score > 0 \<and> real code_score / real (length ls) > 1 / 10 then ''code''
         else ''auto'')"

text \<open>
  The quantities the specification speaks about: whether a line contains at least one
  error pattern (case-insensitively), respectively at least one code keyword fragment,
  and the number of such lines.
\<close>

definition has_error_pattern :: "string \<Rightarrow> bool" where
  "has_error_pattern line = list_ex (\<lambda>pattern. str_in (lower pattern) (lower line)) ERROR_PATTERNS"

definition error_lines :: "string list \<Rightarrow> nat" where
  "error_lines ls = length (filter has_error_pattern ls)"

definition has_code_indicator :: "string \<Rightarrow> bool" where
  "has_code_indicator line = list_ex (\<lambda>ind. str_in ind line) code_indicators"

definition code_lines :: "string list \<Rightarrow> nat" where
  "code_lines ls = length (filter has_code_indicator ls)"


text \<open>
  Two sample inputs. The first has 21 lines, one of which reports an error; the second has
  19 lines, two of which contain one code keyword fragment each.
\<close>

definition overcount_example :: string where
  "overcount_example = concat (replicate 20 ''a\<newline>'') @ ''error: x''"

definition threshold_gap_example :: string where
  "threshold_gap_example =
     ''def f\<newline>import x\<newline>'' @ concat (replicate 16 ''a\<newline>'') @ ''a''"

section \<open>Python values and exceptions\<close>

text \<open>
  The values \<open>json.loads\<close> produces, which are also the values the fields of a history
  entry can hold at run time: the dataclass annotations are not enforced. An object is an
  association list with distinct keys, in insertion order.
\<close>

datatype json =
    JNull
  | JBool bool
  | JNum real
  | JStr string
  | JArr "json list"
  | JObj "(string \<times> json) list"

datatype parse_reason = Missing_key | Index_out_of_range

text \<open>
  The diagnostic a \<open>CopilotCLIError\<close> carries, with the interpolated parts of its message:
  the status code and the truncated body, the error member of the reply, or the lookup
  that failed.
\<close>

datatype diag =
    Http_status int string
  | Api_error json
  | Parse_failure parse_reason

text \<open>
  Exceptions. \<open>OSError\<close> stands for every failure to read a file as text or to write it. \<open>HTTPError\<close>
  stands for the transport errors of the HTTP client, \<open>MarkupError\<close> for the error of the
  console on text that is not well-formed markup. \<open>BackendNotAvailableError\<close> is a
  subclass of \<open>CopilotCLIError\<close>. \<open>Exit\<close> is \<open>typer.Exit\<close> with its exit code.
\<close>

datatype exn =
    OSError
  | JSONDecodeError
  | TypeError
  | KeyError
  | IndexError
  | AttributeError
  | HTTPError
  | MarkupError
  | CopilotCLIError diag
  | BackendNotAvailableError
  | Exit int

definition is_CopilotCLIError :: "exn \<Rightarrow> bool" where
  "is_CopilotCLIError e =
     (case e of CopilotCLIError d \<Rightarrow> True | BackendNotAvailableError \<Rightarrow> True | _ \<Rightarrow> False)"

text \<open>\<open>xs[k:]\<close> for a Python integer \<open>k\<close>: a negative \<open>k\<close> counts from the end.\<close>

definition slice_from :: "int \<Rightarrow> 'a list \<Rightarrow> 'a list" where
  "slice_from k xs =
     (if k < 0 then drop (nat (int (length xs) + k)) xs else drop (nat k) xs)"

text \<open>\<open>xs[i]\<close> on a list: a negative \<open>i\<close> counts from the end, out of range raises.\<close>

definition list_getitem :: "'a list \<Rightarrow> int \<Rightarrow> exn + 'a" where
  "list_getitem xs i =
     (if 0 \<le> i \<and> i < int (length xs) then Inr (xs ! nat i)
      else if i < 0 \<and> - int (length xs) \<le> i then Inr (xs ! nat (int (length xs) + i))
      else Inl IndexError)"

text \<open>\<open>key in v\<close>, \<open>v[key]\<close>, \<open>v[0]\<close>, \<open>v.get(key, default)\<close>, \<open>v.strip()\<close> and
  \<open>v.lower()\<close> on a value \<open>v\<close> that \<open>json.loads\<close> produced.\<close>

definition py_contains :: "string \<Rightarrow> json \<Rightarrow> exn + bool" where
  "py_contains key v =
     (case v of
        JObj kvs \<Rightarrow> Inr (map_of kvs key \<noteq> None)
      | JArr xs \<Rightarrow> Inr (JStr key \<in> set xs)
      | JStr s \<Rightarrow> Inr (str_in key s)
      | _ \<Rightarrow> Inl TypeError)"

definition getitem_key :: "json \<Rightarrow> string \<Rightarrow> exn + json" where
  "getitem_key v key =
     (case v of
        JObj kvs \<Rightarrow> (case map_of kvs key of None \<Rightarrow> Inl KeyError | Some x \<Rightarrow> Inr x)
      | _ \<Rightarrow> Inl TypeError)"

definition getitem_0 :: "json \<Rightarrow> exn + json" where
  "getitem_0 v =
     (case v of
        JArr xs \<Rightarrow> list_getitem xs 0
      | JStr s \<Rightarrow> (case s of [] \<Rightarrow> Inl IndexError | c # cs \<Rightarrow> Inr (JStr [c]))
      | JObj kvs \<Rightarrow> Inl KeyError
      | _ \<Rightarrow> Inl TypeError)"

definition get_default :: "json \<Rightarrow> string \<Rightarrow> json \<Rightarrow> exn + json" where
  "get_default v key dflt =
     (case v of
        JObj kvs \<Rightarrow> (case map_of kvs key of None \<Rightarrow> Inr dflt | Some x \<Rightarrow> Inr x)
      | _ \<Rightarrow> Inl AttributeError)"

definition str_strip :: "json \<Rightarrow> exn + string" where
  "str_strip v = (case v of JStr s \<Rightarrow> Inr (strip s) | _ \<Rightarrow> Inl AttributeError)"

definition str_lower :: "json \<Rightarrow> exn + string" where
  "str_lower v = (case v of JStr s \<Rightarrow> Inr (lower s) | _ \<Rightarrow> Inl AttributeError)"

text \<open>\<open>for x in v\<close>: the elements of a list, the keys of an object, the characters of a
  string; any other value is not iterable.\<close>

definition iterate :: "json \<Rightarrow> exn + json list" where
  "iterate v =
     (case v of
        JArr xs \<Rightarrow> Inr xs
      | JObj kvs \<Rightarrow> Inr (map (\<lambda>kv. JStr (fst kv)) kvs)
      | JStr s \<Rightarrow> Inr (map (\<lambda>c. JStr [c]) s)
      | _ \<Rightarrow> Inl TypeError)"

section \<open>History store (core/history_store.py)\<close>

record HistoryEntry =
  timestamp :: json
  command_type :: json
  query :: json
  explanation :: json
  language :: json
  metadata :: json

definition field_names :: "string list" where
  "field_names =
     [''timestamp'', ''command_type'', ''query'', ''explanation'', ''language'', ''metadata'']"

text \<open>
  \<open>HistoryEntry(**entry)\<close>: the argument must be a mapping; an unknown keyword or a
  missing field without default raises \<open>TypeError\<close>; \<open>language\<close> defaults to \<open>"en"\<close>
  and \<open>metadata\<close> to the empty dict. The values are stored as they are.
\<close>

definition HistoryEntry_of :: "json \<Rightarrow> exn + HistoryEntry" where
  "HistoryEntry_of entry =
     (case entry of
        JObj kvs \<Rightarrow>
          if list_all (\<lambda>kv. fst kv \<in> set field_names) kvs then
            (case (map_of kvs ''timestamp'', map_of kvs ''command_type'',
                   map_of kvs ''query'', map_of kvs ''explanation'') of
               (Some t, Some c, Some q, Some x) \<Rightarrow>
                 Inr \<lparr> timestamp = t, command_type = c, query = q, explanation = x,
                       language = (case map_of kvs ''language'' of
                                     None \<Rightarrow> JStr ''en'' | Some l \<Rightarrow> l),
                       metadata = (case map_of kvs ''metadata'' of
                                     None \<Rightarrow> JObj [] | Some m \<Rightarrow> m) \<rparr>
             | _ \<Rightarrow> Inl TypeError)
          else Inl TypeError
      | _ \<Rightarrow> Inl TypeError)"

text \<open>\<open>[HistoryEntry(**entry) for entry in data]\<close> over the elements already iterated.\<close>

fun entries_of :: "json list \<Rightarrow> exn + HistoryEntry list" where
  "entries_of [] = Inr []"
| "entries_of (entry # rest) =
     (case HistoryEntry_of entry of
        Inl err \<Rightarrow> Inl err
      | Inr e \<Rightarrow> (case entries_of rest of Inl err \<Rightarrow> Inl err | Inr es \<Rightarrow> Inr (e # es)))"

definition asdict :: "HistoryEntry \<Rightarrow> json" where
  "asdict e =
     JObj [(''timestamp'', timestamp e), (''command_type'', command_type e),
           (''query'', query e), (''explanation'', explanation e),
           (''language'', language e), (''metadata'', metadata e)]"

text \<open>
  The backing file: absent, present but not readable as text, or readable; a readable
  file holds either text that is not JSON or a JSON document.
\<close>

datatype file_content = Not_JSON | Document json

datatype history_file = Missing | Unreadable | Readable file_content

definition read_text :: "history_file \<Rightarrow> exn + file_content" where
  "read_text f = (case f of Readable c \<Rightarrow> Inr c | _ \<Rightarrow> Inl OSError)"

definition json_loads :: "file_content \<Rightarrow> exn + json" where
  "json_loads c = (case c of Not_JSON \<Rightarrow> Inl JSONDecodeError | Document d \<Rightarrow> Inr d)"

text \<open>
  The store object: the cached list \<open>_entries\<close>, the file it is bound to, and whether
  \<open>write_text\<close> on that file succeeds; when it does not, it raises \<open>OSError\<close> and
  leaves the file as it is.
\<close>

record HistoryStore =
  entries :: "HistoryEntry list option"
  history_file :: history_file
  writable :: bool

definition MAX_ENTRIES :: nat where
  "MAX_ENTRIES = 500"

text \<open>The body of the \<open>try\<close> block of \<open>_load\<close>.\<close>

definition read_entries :: "history_file \<Rightarrow> exn + HistoryEntry list" where
  "read_entries f =
     (case read_text f of
        Inl err \<Rightarrow> Inl err
      | Inr c \<Rightarrow>
          (case json_loads c of
             Inl err \<Rightarrow> Inl err
           | Inr data \<Rightarrow>
               (case iterate data of Inl err \<Rightarrow> Inl err | Inr xs \<Rightarrow> entries_of xs)))"

text \<open>
  Every operation takes the store and returns its outcome, a value or the exception it
  raises, together with the store as the call leaves it.
\<close>

definition load :: "HistoryStore \<Rightarrow> (exn + HistoryEntry list) \<times> HistoryStore" where
  "load self =
     (case entries self of
        Some es \<Rightarrow> (Inr es, self)
      | None \<Rightarrow>
          if history_file self = Missing then (Inr [], self\<lparr>entries := Some []\<rparr>)
          else
            (case read_entries (history_file self) of
               Inr es \<Rightarrow> (Inr es, self\<lparr>entries := Some es\<rparr>)
             | Inl err \<Rightarrow>
                 if err = JSONDecodeError \<or> err = TypeError \<or> err = KeyError
                 then (Inr [], self\<lparr>entries := Some []\<rparr>)
                 else (Inl err, self)))"

definition save :: "HistoryStore \<Rightarrow> (exn + unit) \<times> HistoryStore" where
  "save self =
     (case load self of
        (Inl err, self1) \<Rightarrow> (Inl err, self1)
      | (Inr es, self1) \<Rightarrow>
          let trimmed = (if length es > MAX_ENTRIES
                         then slice_from (- int MAX_ENTRIES) es else es);
              self2 = (if length es > MAX_ENTRIES
                       then self1\<lparr>entries := Some trimmed\<rparr> else self1)
          in if writable self2
             then (Inr (), self2\<lparr>history_file := Readable (Document (JArr (map asdict trimmed)))\<rparr>)
             else (Inl OSError, self2))"

text \<open>\<open>add\<close>; the first argument is the value of \<open>time.time()\<close> at the call, and
  \<open>metadata or {}\<close> turns an absent dict into the empty one.\<close>

definition new_entry ::
  "real \<Rightarrow> string \<Rightarrow> string \<Rightarrow> string \<Rightarrow> string \<Rightarrow> (string \<times> json) list option \<Rightarrow> HistoryEntry" where
  "new_entry now ctype qry expl lang md =
     \<lparr> timestamp = JNum now, command_type = JStr ctype, query = JStr qry,
       explanation = JStr expl, language = JStr lang,
       metadata = (case md of None \<Rightarrow> JObj [] | Some m \<Rightarrow> JObj m) \<rparr>"

definition add ::
  "real \<Rightarrow> string \<Rightarrow> string \<Rightarrow> string \<Rightarrow> string \<Rightarrow> (string \<times> json) list option
     \<Rightarrow> HistoryStore \<Rightarrow> (exn + unit) \<times> HistoryStore" where
  "add now ctype qry expl lang md self =
     (case load self of
        (Inl err, self1) \<Rightarrow> (Inl err, self1)
      | (Inr es, self1) \<Rightarrow>
          save (self1\<lparr>entries := Some (es @ [new_entry now ctype qry expl lang md])\<rparr>))"

text \<open>The filter of \<open>list_entries\<close>: \<open>None\<close> and the empty string select every entry.\<close>

definition by_type :: "string option \<Rightarrow> HistoryEntry list \<Rightarrow> HistoryEntry list" where
  "by_type ctype es =
     (case ctype of
        None \<Rightarrow> es
      | Some t \<Rightarrow> if t = [] then es else filter (\<lambda>e. command_type e = JStr t) es)"

definition list_entries ::
  "int \<Rightarrow> string option \<Rightarrow> HistoryStore \<Rightarrow> (exn + HistoryEntry list) \<times> HistoryStore" where
  "list_entries limit ctype self =
     (case load self of
        (Inl err, self1) \<Rightarrow> (Inl err, self1)
      | (Inr es, self1) \<Rightarrow> (Inr (slice_from (- limit) (by_type ctype es)), self1))"

text \<open>
  The condition of the comprehension in \<open>search\<close>: \<open>or\<close> evaluates its right operand
  only when the left one is false.
\<close>

definition entry_matches :: "string \<Rightarrow> HistoryEntry \<Rightarrow> exn + bool" where
  "entry_matches query_lower e =
     (case str_lower (query e) of
        Inl err \<Rightarrow> Inl err
      | Inr q \<Rightarrow>
          if str_in query_lower q then Inr True
          else (case str_lower (explanation e) of
                  Inl err \<Rightarrow> Inl err
                | Inr x \<Rightarrow> Inr (str_in query_lower x)))"

fun matching :: "string \<Rightarrow> HistoryEntry list \<Rightarrow> exn + HistoryEntry list" where
  "matching query_lower [] = Inr []"
| "matching query_lower (e # es) =
     (case entry_matches query_lower e of
        Inl err \<Rightarrow> Inl err
      | Inr b \<Rightarrow>
          (case matching query_lower es of
             Inl err \<Rightarrow> Inl err
           | Inr ms \<Rightarrow> Inr (if b then e # ms else ms)))"

definition search ::
  "string \<Rightarrow> int \<Rightarrow> HistoryStore \<Rightarrow> (exn + HistoryEntry list) \<times> HistoryStore" where
  "search qry limit self =
     (case load self of
        (Inl err, self1) \<Rightarrow> (Inl err, self1)
      | (Inr es, self1) \<Rightarrow>
          (case matching (lower qry) es of
             Inl err \<Rightarrow> (Inl err, self1)
           | Inr matches \<Rightarrow> (Inr (slice_from (- limit) matches), self1)))"

definition get :: "int \<Rightarrow> HistoryStore \<Rightarrow> (exn + HistoryEntry option) \<times> HistoryStore" where
  "get index self =
     (case load self of
        (Inl err, self1) \<Rightarrow> (Inl err, self1)
      | (Inr es, self1) \<Rightarrow>
          if es = [] \<or> index < 1 \<or> index > int (length es) then (Inr None, self1)
          else (case list_getitem es (- index) of
                  Inl err \<Rightarrow> (Inl err, self1)
                | Inr e \<Rightarrow> (Inr (Some e), self1)))"

definition clear :: "HistoryStore \<Rightarrow> (exn + unit) \<times> HistoryStore" where
  "clear self = save (self\<lparr>entries := Some []\<rparr>)"

definition count :: "HistoryStore \<Rightarrow> (exn + nat) \<times> HistoryStore" where
  "count self =
     (case load self of
        (Inl err, self1) \<Rightarrow> (Inl err, self1)
      | (Inr es, self1) \<Rightarrow> (Inr (length es), self1))"

text \<open>
  A run of \<open>add\<close> calls, one per element of the list; it stops at the first call that
  raises.
\<close>

type_synonym add_args =
  "real \<times> string \<times> string \<times> string \<times> string \<times> (string \<times> json) list option"

definition entry_of_args :: "add_args \<Rightarrow> HistoryEntry" where
  "entry_of_args a =
     (case a of (now, ctype, qry, expl, lang, md) \<Rightarrow> new_entry now ctype qry expl lang md)"

fun add_all :: "add_args list \<Rightarrow> HistoryStore \<Rightarrow> (exn + unit) \<times> HistoryStore" where
  "add_all [] self = (Inr (), self)"
| "add_all (a # rest) self =
     (case a of (now, ctype, qry, expl, lang, md) \<Rightarrow>
        (case add now ctype qry expl lang md self of
           (Inl err, self1) \<Rightarrow> (Inl err, self1)
         | (Inr u, self1) \<Rightarrow> add_all rest self1))"

text \<open>The entries a store holds as its callers see them: the result of \<open>_load\<close>.\<close>

definition loaded :: "HistoryStore \<Rightarrow> exn + HistoryEntry list" where
  "loaded self = fst (load self)"

text \<open>
  The terms of the specification: the \<open>n\<close> most recent elements of a list in insertion
  order; an entry whose query and explanation are texts; and such an entry mentioning a
  search string in either text, case-insensitively.
\<close>

definition most_recent :: "nat \<Rightarrow> 'a list \<Rightarrow> 'a list" where
  "most_recent n xs = drop (length xs - n) xs"

definition text_of :: "json \<Rightarrow> string" where
  "text_of v = (case v of JStr s \<Rightarrow> s | _ \<Rightarrow> [])"

definition has_text_fields :: "HistoryEntry \<Rightarrow> bool" where
  "has_text_fields e =
     (case query e of
        JStr q \<Rightarrow> (case explanation e of JStr x \<Rightarrow> True | _ \<Rightarrow> False)
      | _ \<Rightarrow> False)"

definition mentions :: "string \<Rightarrow> HistoryEntry \<Rightarrow> bool" where
  "mentions s e =
     (str_in (lower s) (lower (text_of (query e)))
      \<or> str_in (lower s) (lower (text_of (explanation e))))"





definition empty_store :: HistoryStore where
  "empty_store = \<lparr> entries = None, history_file = Missing, writable = True \<rparr>"

definition docker_args :: "add_args list" where
  "docker_args =
     [(1, ''cmd'', ''docker run nginx'', ''Runs nginx container'', ''en'', None),
      (2, ''cmd'', ''git push origin main'', ''Pushes to main'', ''en'', None),
      (3, ''error'', ''docker: command not found'', ''Docker not installed'', ''en'', None)]"

definition docker_store :: HistoryStore where
  "docker_store = snd (add_all docker_args empty_store)"

definition unreadable_store :: HistoryStore where
  "unreadable_store = \<lparr> entries = None, history_file = Unreadable, writable = True \<rparr>"

definition null_query_store :: HistoryStore where
  "null_query_store =
     \<lparr> entries = None,
       history_file = Readable (Document (JArr
         [JObj [(''timestamp'', JNum 0), (''command_type'', JStr ''cmd''),
                (''query'', JNull), (''explanation'', JStr ''x'')]])),
       writable = True \<rparr>"

section \<open>Pipe command handler (commands/pipe.py)\<close>















section \<open>Backend call (core/copilot.py)\<close>

text \<open>
  The reply of the HTTP client: the status code, the body as text, and the body as
  \<open>resp.json()\<close> returns it; \<open>None\<close> when the body is not JSON, where \<open>resp.json()\<close> raises
  \<open>JSONDecodeError\<close>.
\<close>

record response =
  status_code :: int
  body_text :: string
  body_json :: "json option"

text \<open>
  The network as the backend sees it: the outcome of the k-th POST request, and the number
  of requests made so far. A request returns a reply or raises a transport error.
\<close>

record network =
  outcome :: "nat \<Rightarrow> exn + response"
  requests :: nat

type_synonym message = "string \<times> string"

definition post :: "message list \<Rightarrow> network \<Rightarrow> (exn + response) \<times> network" where
  "post messages net = (outcome net (requests net), net\<lparr>requests := requests net + 1\<rparr>)"

text \<open>The body of the \<open>try\<close> block of \<open>ask_messages\<close>.\<close>

definition read_reply :: "response \<Rightarrow> exn + string" where
  "read_reply resp =
     (case body_json resp of
        None \<Rightarrow> Inl JSONDecodeError
      | Some data \<Rightarrow>
          (case py_contains ''error'' data of
             Inl err \<Rightarrow> Inl err
           | Inr True \<Rightarrow>
               (case getitem_key data ''error'' of
                  Inl err \<Rightarrow> Inl err
                | Inr e \<Rightarrow>
                    (case get_default e ''message'' e of
                       Inl err \<Rightarrow> Inl err
                     | Inr m \<Rightarrow> Inl (CopilotCLIError (Api_error m))))
           | Inr False \<Rightarrow>
               (case getitem_key data ''choices'' of
                  Inl err \<Rightarrow> Inl err
                | Inr choices \<Rightarrow>
                    (case getitem_0 choices of
                       Inl err \<Rightarrow> Inl err
                     | Inr choice \<Rightarrow>
                         (case getitem_key choice ''message'' of
                            Inl err \<Rightarrow> Inl err
                          | Inr msg \<Rightarrow>
                              (case getitem_key msg ''content'' of
                                 Inl err \<Rightarrow> Inl err
                               | Inr c \<Rightarrow> str_strip c))))))"

text \<open>\<open>ask_messages\<close>; the first argument is what \<open>_get_github_token()\<close> returns.\<close>

definition ask_messages ::
  "string option \<Rightarrow> message list \<Rightarrow> network \<Rightarrow> (exn + string) \<times> network" where
  "ask_messages token messages net =
     (if token = None \<or> token = Some [] then (Inl BackendNotAvailableError, net)
      else
        (case post messages net of
           (Inl err, net1) \<Rightarrow> (Inl err, net1)
         | (Inr resp, net1) \<Rightarrow>
             if status_code resp \<noteq> 200
             then (Inl (CopilotCLIError (Http_status (status_code resp) (take 300 (body_text resp)))),
                   net1)
             else
               (case read_reply resp of
                  Inl KeyError \<Rightarrow> (Inl (CopilotCLIError (Parse_failure Missing_key)), net1)
                | Inl IndexError \<Rightarrow> (Inl (CopilotCLIError (Parse_failure Index_out_of_range)), net1)
                | Inl err \<Rightarrow> (Inl err, net1)
                | Inr answer \<Rightarrow> (Inr answer, net1))))"

text \<open>A network whose next reply is the given one.\<close>

definition replying :: "response \<Rightarrow> network" where
  "replying resp = \<lparr> outcome = (\<lambda>k. Inr resp), requests = 0 \<rparr>"

text \<open>
  Sample replies with status 200: a body that is not JSON, a body that is a JSON list, a
  reply whose content is null, and a reply without choices; and a reply with status 502.
\<close>

definition html_reply :: response where
  "html_reply = \<lparr> status_code = 200, body_text = ''<html>Bad Gateway</html>'', body_json = None \<rparr>"

definition list_reply :: response where
  "list_reply = \<lparr> status_code = 200, body_text = ''[]'', body_json = Some (JArr []) \<rparr>"

definition null_content_reply :: response where
  "null_content_reply =
     \<lparr> status_code = 200, body_text = [],
       body_json = Some (JObj [(''choices'',
         JArr [JObj [(''message'', JObj [(''content'', JNull)])]])]) \<rparr>"

definition no_choices_reply :: response where
  "no_choices_reply = \<lparr> status_code = 200, body_text = ''{}'', body_json = Some (JObj []) \<rparr>"

definition bad_gateway_reply :: response where
  "bad_gateway_reply = \<lparr> status_code = 502, body_text = ''Bad Gateway'', body_json = None \<rparr>"

section \<open>Properties of the classifier\<close>

lemmas text_eval =
  lower_def lower_char_def code_point_def char_of_def Let_def bit_0
  strip_def isspace_def is_linebreak_def splitlines_def

lemmas score_eval =
  error_score_of_def error_lines_def has_error_pattern_def ERROR_PATTERNS_def
  code_score_of_def code_lines_def has_code_indicator_def code_indicators_def

lemma ratio_error: "0 < n \<Longrightarrow> (5 / 100 < real k / real n) = (n < 20 * k)"
proof -
  assume "0 < n"
  then have "(5 / 100 < real k / real n) = (real n < real (20 * k))"
    by (simp add: field_simps)
  also have "\<dots> = (n < 20 * k)"
    by (simp only: of_nat_less_iff)
  finally show ?thesis .
qed

lemma ratio_code: "0 < n \<Longrightarrow> (1 / 10 < real k / real n) = (n < 10 * k)"
proof -
  assume "0 < n"
  then have "(1 / 10 < real k / real n) = (real n < real (10 * k))"
    by (simp add: field_simps)
  also have "\<dots> = (n < 10 * k)"
    by (simp only: of_nat_less_iff)
  finally show ?thesis .
qed

lemma pattern_loop_eq:
  "pattern_loop ps l n = n + length (filter (\<lambda>p. str_in (lower p) (lower l)) ps)"
  by (induction ps arbitrary: n) auto

lemma filter_pos: "list_ex P xs \<Longrightarrow> 0 < length (filter P xs)"
  by (induction xs) auto

lemma filter_none: "\<not> list_ex P xs \<Longrightarrow> filter P xs = []"
  by (induction xs) auto

lemma pattern_loop_ge: "has_error_pattern l \<Longrightarrow> Suc n \<le> pattern_loop ERROR_PATTERNS l n"
  unfolding pattern_loop_eq has_error_pattern_def
  using filter_pos[of "\<lambda>p. str_in (lower p) (lower l)" ERROR_PATTERNS] by linarith

lemma pattern_loop_mono: "n \<le> pattern_loop ps l n"
  unfolding pattern_loop_eq by simp

lemma pattern_loop_none: "\<not> has_error_pattern l \<Longrightarrow> pattern_loop ERROR_PATTERNS l n = n"
  unfolding pattern_loop_eq has_error_pattern_def
  by (simp add: filter_none)

lemma line_loop_none: "error_lines ls = 0 \<Longrightarrow> line_loop ls n = n"
  by (induction ls arbitrary: n) (auto simp: error_lines_def pattern_loop_none split: if_splits)

lemma error_score_none: "error_lines ls = 0 \<Longrightarrow> error_score_of ls = 0"
  by (simp add: error_score_of_def line_loop_none)

lemma line_loop_ge: "n + error_lines ls \<le> line_loop ls n"
proof (induction ls arbitrary: n)
  case Nil
  show ?case by (simp add: error_lines_def)
next
  case (Cons l ls)
  show ?case
  proof (cases "has_error_pattern l")
    case True
    have "n + error_lines (l # ls) = Suc n + error_lines ls"
      using True by (simp add: error_lines_def)
    also have "\<dots> \<le> pattern_loop ERROR_PATTERNS l n + error_lines ls"
      using pattern_loop_ge[OF True, of n] by simp
    also have "\<dots> \<le> line_loop (l # ls) n"
      using Cons.IH[of "pattern_loop ERROR_PATTERNS l n"] by simp
    finally show ?thesis .
  next
    case False
    have "n + error_lines (l # ls) = n + error_lines ls"
      using False by (simp add: error_lines_def)
    also have "\<dots> \<le> pattern_loop ERROR_PATTERNS l n + error_lines ls"
      using pattern_loop_mono[of n ERROR_PATTERNS l] by simp
    also have "\<dots> \<le> line_loop (l # ls) n"
      using Cons.IH[of "pattern_loop ERROR_PATTERNS l n"] by simp
    finally show ?thesis .
  qed
qed

lemma error_lines_le: "error_lines ls \<le> error_score_of ls"
  using line_loop_ge[of 0 ls] by (simp add: error_score_of_def)

lemma indicator_sum:
  "sum_list (concat (map (\<lambda>ind. if P ind then [1::nat] else []) xs)) = length (filter P xs)"
  by (induction xs) auto

lemma code_score_Nil: "code_score_of [] = 0"
  by (simp add: code_score_of_def)

lemma code_score_Cons:
  "code_score_of (l # ls) =
     length (filter (\<lambda>ind. str_in ind l) code_indicators) + code_score_of ls"
  by (simp add: code_score_of_def indicator_sum)

lemma code_lines_le: "code_lines ls \<le> code_score_of ls"
proof (induction ls)
  case Nil
  show ?case by (simp add: code_lines_def code_score_Nil)
next
  case (Cons l ls)
  show ?case
  proof (cases "has_code_indicator l")
    case True
    have pos: "Suc 0 \<le> length (filter (\<lambda>ind. str_in ind l) code_indicators)"
      using filter_pos[of "\<lambda>ind. str_in ind l" code_indicators] True
      unfolding has_code_indicator_def by linarith
    have "code_lines (l # ls) = Suc (code_lines ls)"
      using True by (simp add: code_lines_def)
    with pos Cons show ?thesis
      unfolding code_score_Cons by linarith
  next
    case False
    with Cons show ?thesis
      by (simp add: code_lines_def code_score_Cons)
  qed
qed

lemma code_score_none: "code_lines ls = 0 \<Longrightarrow> code_score_of ls = 0"
proof (induction ls)
  case Nil
  show ?case by (simp add: code_score_Nil)
next
  case (Cons l ls)
  from Cons.prems have nl: "\<not> has_code_indicator l" and rest: "code_lines ls = 0"
    by (auto simp: code_lines_def split: if_splits)
  from nl have "filter (\<lambda>ind. str_in ind l) code_indicators = []"
    unfolding has_code_indicator_def by (rule filter_none)
  with Cons.IH[OF rest] show ?case
    by (simp add: code_score_Cons)
qed

lemma overcount_lines:
  "splitlines (strip overcount_example) = replicate 20 ''a'' @ [''error: x'']"
  by (simp add: overcount_example_def text_eval numeral_eq_Suc)

lemma threshold_gap_lines:
  "splitlines (strip threshold_gap_example) = [''def f'', ''import x''] @ replicate 17 ''a''"
  by (simp add: threshold_gap_example_def text_eval numeral_eq_Suc)

lemma plain_line_no_error: "\<not> has_error_pattern ''a''"
  by (simp add: score_eval text_eval)

lemma plain_line_no_code: "\<not> has_code_indicator ''a''"
  by (simp add: score_eval)

lemma error_lines_replicate_plain: "error_lines (replicate n ''a'') = 0"
  by (induction n) (simp_all add: error_lines_def plain_line_no_error)

lemma code_lines_replicate_plain: "code_lines (replicate n ''a'') = 0"
  by (induction n) (simp_all add: code_lines_def plain_line_no_code)

lemma line_loop_append: "line_loop (xs @ ys) n = line_loop ys (line_loop xs n)"
  by (induction xs arbitrary: n) auto

lemma error_lines_append: "error_lines (xs @ ys) = error_lines xs + error_lines ys"
  by (simp add: error_lines_def)

lemma code_lines_append: "code_lines (xs @ ys) = code_lines xs + code_lines ys"
  by (simp add: code_lines_def)

lemma code_score_append: "code_score_of (xs @ ys) = code_score_of xs + code_score_of ys"
  by (induction xs) (simp_all add: code_score_Nil code_score_Cons)

lemma lowered_patterns:
  "map lower ERROR_PATTERNS =
    [''traceback (most recent call last)'', ''error:'', ''exception:'', ''error:'', ''fatal'',
     ''fail'', ''panic:'', ''segmentation fault'', ''econnrefused'', ''enoent'', ''eperm'',
     ''errno'', ''syntaxerror'', ''typeerror'', ''valueerror'', ''keyerror'', ''indexerror'',
     ''attributeerror'', ''importerror'', ''modulenotfounderror'', ''filenotfounderror'',
     ''permissionerror'', ''runtimeerror'', ''nullpointerexception'',
     ''classnotfoundexception'', ''arrayindexoutofboundsexception'',
     ''undefined is not a function'', ''cannot read propert'', ''is not defined'',
     ''command not found'', ''no such file or directory'', ''permission denied'']"
  by (simp add: ERROR_PATTERNS_def text_eval)

lemma has_error_pattern_eval:
  "has_error_pattern l = list_ex (\<lambda>p. str_in p (lower l)) (map lower ERROR_PATTERNS)"
  by (simp add: has_error_pattern_def list_ex_iff)

lemma pattern_loop_eval:
  "pattern_loop ERROR_PATTERNS l n =
     n + length (filter (\<lambda>p. str_in p (lower l)) (map lower ERROR_PATTERNS))"
  by (simp add: pattern_loop_eq filter_map o_def)

lemmas line_eval = has_error_pattern_eval pattern_loop_eval lowered_patterns text_eval

lemmas code_eval = has_code_indicator_def code_indicators_def

lemma detect_by_scores:
  assumes "ls = splitlines (strip content)" and "ls \<noteq> []"
  shows "detect_content_type content =
     (if length ls < 20 * error_score_of ls then ''error''
      else if length ls < 10 * code_score_of ls then ''code''
      else ''auto'')"
proof -
  have len: "0 < length ls" using assms(2) by simp
  have e: "(0 < error_score_of ls \<and> 5 / 100 < real (error_score_of ls) / real (length ls))
           = (length ls < 20 * error_score_of ls)"
    using len by (auto simp only: ratio_error[OF len])
  have c: "(0 < code_score_of ls \<and> 1 / 10 < real (code_score_of ls) / real (length ls))
           = (length ls < 10 * code_score_of ls)"
    using len by (auto simp only: ratio_code[OF len])
  have "detect_content_type content =
     (if 0 < error_score_of ls \<and> 5 / 100 < real (error_score_of ls) / real (length ls)
      then ''error''
      else if 0 < code_score_of ls \<and> 1 / 10 < real (code_score_of ls) / real (length ls)
      then ''code'' else ''auto'')"
    using assms(2) unfolding detect_content_type_def assms(1)[symmetric] Let_def
    by (simp only: if_False)
  then show ?thesis
    by (simp only: e c)
qed

lemma overcount_score: "error_score_of (splitlines (strip overcount_example)) = 2"
proof -
  have "line_loop (replicate 20 ''a'') 0 = 0"
    by (rule line_loop_none) (rule error_lines_replicate_plain)
  moreover have "pattern_loop ERROR_PATTERNS ''error: x'' 0 = 2"
    by (simp add: line_eval)
  ultimately show ?thesis
    by (simp only: overcount_lines error_score_of_def line_loop_append line_loop.simps)
qed

lemma overcount_error_lines: "error_lines (splitlines (strip overcount_example)) = 1"
proof -
  have "has_error_pattern ''error: x''"
    by (simp add: line_eval)
  then have "error_lines [''error: x''] = 1"
    by (simp add: error_lines_def)
  then show ?thesis
    by (simp only: overcount_lines error_lines_append error_lines_replicate_plain)
qed

lemma overcount_length: "length (splitlines (strip overcount_example)) = 21"
  by (simp add: overcount_lines)

lemma overcount_detect: "detect_content_type overcount_example = ''error''"
proof -
  have "splitlines (strip overcount_example) \<noteq> []"
    using overcount_length by auto
  from detect_by_scores[OF refl this] show ?thesis
    by (simp add: overcount_length overcount_score)
qed

text \<open>
  Claim C1. The specification asks that the error score be the number of lines containing
  at least one error pattern, each line counting once. The loops add one per matching
  pattern instead: the line \<open>error: x\<close> matches both \<open>Error:\<close> and \<open>error:\<close>, which are
  the same pattern once lower-cased, and scores 2. In the sample input one line of 21
  (under 5 percent) contains a pattern, yet the score is 2 and the text is classified as
  an error.
\<close>

theorem error_score_counts_every_match:
  "length (splitlines (strip overcount_example)) = 21
   \<and> error_lines (splitlines (strip overcount_example)) = 1
   \<and> error_score_of (splitlines (strip overcount_example)) = 2
   \<and> detect_content_type overcount_example = ''error''"
  using overcount_length overcount_error_lines overcount_score overcount_detect
  by (simp only: simp_thms)

text \<open>
  Claim C7. A text with at least one line, in which at least 6 percent of the lines contain
  an error pattern, is classified as \<open>error\<close>, whatever code keywords it contains. (A text
  with no line has no such percentage and is classified \<open>unknown\<close>.)
\<close>

theorem detect_error_at_six_percent:
  assumes "splitlines (strip content) \<noteq> []"
    and "6 * length (splitlines (strip content)) \<le> 100 * error_lines (splitlines (strip content))"
  shows "detect_content_type content = ''error''"
proof -
  define ls where "ls = splitlines (strip content)"
  have ne: "ls \<noteq> []" and six: "6 * length ls \<le> 100 * error_lines ls"
    using assms by (simp_all add: ls_def)
  have len: "0 < length ls" using ne by simp
  have "error_lines ls \<le> error_score_of ls" by (rule error_lines_le)
  with six len have big: "length ls < 20 * error_score_of ls" by linarith
  show ?thesis
    unfolding detect_by_scores[OF ls_def ne] using big by simp
qed

lemma mixed_lines:
  "splitlines (strip ''import os\<newline>TypeError: bad'') = [''import os'', ''TypeError: bad'']"
  by (simp add: text_eval)

text \<open>
  Witness for C7: of two lines, one is an import statement and one reports a type error;
  half of the lines contain an error pattern and the text is classified as \<open>error\<close>.
\<close>

theorem detect_error_at_six_percent_witness:
  "splitlines (strip ''import os\<newline>TypeError: bad'') \<noteq> []
   \<and> 6 * length (splitlines (strip ''import os\<newline>TypeError: bad''))
        \<le> 100 * error_lines (splitlines (strip ''import os\<newline>TypeError: bad''))
   \<and> code_lines (splitlines (strip ''import os\<newline>TypeError: bad'')) = 1
   \<and> detect_content_type ''import os\<newline>TypeError: bad'' = ''error''"
proof -
  have h1: "splitlines (strip ''import os\<newline>TypeError: bad'') \<noteq> []"
    by (simp add: mixed_lines)
  have "has_error_pattern ''TypeError: bad''" and "\<not> has_error_pattern ''import os''"
    by (simp_all add: line_eval)
  then have el: "error_lines (splitlines (strip ''import os\<newline>TypeError: bad'')) = 1"
    by (simp add: mixed_lines error_lines_def)
  have h2: "6 * length (splitlines (strip ''import os\<newline>TypeError: bad''))
        \<le> 100 * error_lines (splitlines (strip ''import os\<newline>TypeError: bad''))"
    unfolding el by (simp add: mixed_lines)
  have "has_code_indicator ''import os''" and "\<not> has_code_indicator ''TypeError: bad''"
    by (simp_all add: code_eval)
  then have cl: "code_lines (splitlines (strip ''import os\<newline>TypeError: bad'')) = 1"
    by (simp add: mixed_lines code_lines_def)
  show ?thesis
    using h1 h2 cl detect_error_at_six_percent[OF h1 h2] by (simp only: simp_thms)
qed

section \<open>Code and general output\<close>

text \<open>
  Claim C8, as amended. For a text with at least one line after stripping and no error
  pattern on any line: if at least 11 percent of the lines contain a code keyword fragment
  the classifier returns \<open>code\<close>; if the keyword matches, counted once per line and
  fragment, number at most 10 percent of the lines, it returns \<open>auto\<close>; in particular it
  returns \<open>auto\<close> when no line contains a fragment.
\<close>

theorem detect_code_or_auto:
  assumes "splitlines (strip content) \<noteq> []"
    and "error_lines (splitlines (strip content)) = 0"
  shows "(11 * length (splitlines (strip content)) \<le> 100 * code_lines (splitlines (strip content))
            \<longrightarrow> detect_content_type content = ''code'')
       \<and> (10 * code_score_of (splitlines (strip content)) \<le> length (splitlines (strip content))
            \<longrightarrow> detect_content_type content = ''auto'')
       \<and> (code_lines (splitlines (strip content)) = 0
            \<longrightarrow> detect_content_type content = ''auto'')"
proof -
  define ls where "ls = splitlines (strip content)"
  have ne: "ls \<noteq> []" and noerr: "error_lines ls = 0"
    using assms by (simp_all add: ls_def)
  have len: "0 < length ls" using ne by simp
  have es: "error_score_of ls = 0" using noerr by (rule error_score_none)
  have res: "detect_content_type content =
      (if length ls < 10 * code_score_of ls then ''code'' else ''auto'')"
    unfolding detect_by_scores[OF ls_def ne] using es by simp
  have a: "detect_content_type content = ''code''" if "11 * length ls \<le> 100 * code_lines ls"
  proof -
    have "code_lines ls \<le> code_score_of ls" by (rule code_lines_le)
    with that len have "length ls < 10 * code_score_of ls" by linarith
    then show ?thesis unfolding res by simp
  qed
  have b: "detect_content_type content = ''auto''" if "10 * code_score_of ls \<le> length ls"
    unfolding res using that by simp
  have c: "detect_content_type content = ''auto''" if "code_lines ls = 0"
  proof -
    have "code_score_of ls = 0" using that by (rule code_score_none)
    then show ?thesis unfolding res by simp
  qed
  show ?thesis using a b c unfolding ls_def by blast
qed

lemma gap_length: "length (splitlines (strip threshold_gap_example)) = 19"
  by (simp add: threshold_gap_lines)

lemma gap_code_lines: "code_lines (splitlines (strip threshold_gap_example)) = 2"
proof -
  have "has_code_indicator ''def f''" and "has_code_indicator ''import x''"
    by (simp_all add: code_eval)
  then have "code_lines [''def f'', ''import x''] = 2"
    by (simp add: code_lines_def)
  then show ?thesis
    by (simp only: threshold_gap_lines code_lines_append code_lines_replicate_plain)
qed

lemma gap_code_score: "code_score_of (splitlines (strip threshold_gap_example)) = 2"
proof -
  have "code_score_of [''def f'', ''import x''] = 2"
    by (simp add: code_score_Cons code_score_Nil code_indicators_def)
  moreover have "code_score_of (replicate 17 ''a'') = 0"
    by (rule code_score_none) (rule code_lines_replicate_plain)
  ultimately show ?thesis
    by (simp only: threshold_gap_lines code_score_append)
qed

lemma gap_error_lines: "error_lines (splitlines (strip threshold_gap_example)) = 0"
proof -
  have "\<not> has_error_pattern ''def f''" and "\<not> has_error_pattern ''import x''"
    by (simp_all add: line_eval)
  then have "error_lines [''def f'', ''import x''] = 0"
    by (simp add: error_lines_def)
  then show ?thesis
    by (simp only: threshold_gap_lines error_lines_append error_lines_replicate_plain)
qed

lemma gap_detect: "detect_content_type threshold_gap_example = ''code''"
proof -
  have ne: "splitlines (strip threshold_gap_example) \<noteq> []"
    using gap_length by auto
  have "error_score_of (splitlines (strip threshold_gap_example)) = 0"
    using gap_error_lines by (rule error_score_none)
  then show ?thesis
    unfolding detect_by_scores[OF refl ne] by (simp add: gap_length gap_code_score)
qed

text \<open>
  Counterexample to C8 as stated: the sample has 19 lines and no error pattern; two lines
  (fewer than 11 percent) contain a code keyword fragment, one match each, and the
  classifier returns \<open>code\<close>, not \<open>auto\<close>: the threshold of the code is 10 percent.
\<close>

theorem auto_below_eleven_percent_counterexample:
  "splitlines (strip threshold_gap_example) \<noteq> []
   \<and> error_lines (splitlines (strip threshold_gap_example)) = 0
   \<and> \<not> 11 * length (splitlines (strip threshold_gap_example))
          \<le> 100 * code_lines (splitlines (strip threshold_gap_example))
   \<and> detect_content_type threshold_gap_example \<noteq> ''auto''"
proof -
  have "splitlines (strip threshold_gap_example) \<noteq> []"
    using gap_length by auto
  then show ?thesis
    by (simp add: gap_length gap_code_lines gap_error_lines gap_detect)
qed

lemma code_sample_lines:
  "splitlines (strip ''import os\<newline>x = 1'') = [''import os'', ''x = 1'']"
  by (simp add: text_eval)

lemma plain_sample_lines:
  "splitlines (strip ''total 48\<newline>drwxr-xr-x'') = [''total 48'', ''drwxr-xr-x'']"
  by (simp add: text_eval)

text \<open>
  Witness for C8: a two-line text with one import statement is classified \<open>code\<close>; a
  two-line directory listing is classified \<open>auto\<close>.
\<close>

theorem detect_code_or_auto_witness:
  "splitlines (strip ''import os\<newline>x = 1'') \<noteq> []
   \<and> error_lines (splitlines (strip ''import os\<newline>x = 1'')) = 0
   \<and> 11 * length (splitlines (strip ''import os\<newline>x = 1''))
        \<le> 100 * code_lines (splitlines (strip ''import os\<newline>x = 1''))
   \<and> detect_content_type ''import os\<newline>x = 1'' = ''code''
   \<and> splitlines (strip ''total 48\<newline>drwxr-xr-x'') \<noteq> []
   \<and> error_lines (splitlines (strip ''total 48\<newline>drwxr-xr-x'')) = 0
   \<and> code_lines (splitlines (strip ''total 48\<newline>drwxr-xr-x'')) = 0
   \<and> 10 * code_score_of (splitlines (strip ''total 48\<newline>drwxr-xr-x''))
        \<le> length (splitlines (strip ''total 48\<newline>drwxr-xr-x''))
   \<and> detect_content_type ''total 48\<newline>drwxr-xr-x'' = ''auto''"
proof -
  have c1: "splitlines (strip ''import os\<newline>x = 1'') \<noteq> []"
    by (simp add: code_sample_lines)
  have "\<not> has_error_pattern ''import os''" and "\<not> has_error_pattern ''x = 1''"
    by (simp_all add: line_eval)
  then have c2: "error_lines (splitlines (strip ''import os\<newline>x = 1'')) = 0"
    by (simp add: code_sample_lines error_lines_def)
  have "has_code_indicator ''import os''" and "\<not> has_code_indicator ''x = 1''"
    by (simp_all add: code_eval)
  then have c3: "code_lines (splitlines (strip ''import os\<newline>x = 1'')) = 1"
    by (simp add: code_sample_lines code_lines_def)
  have c4: "11 * length (splitlines (strip ''import os\<newline>x = 1''))
        \<le> 100 * code_lines (splitlines (strip ''import os\<newline>x = 1''))"
    unfolding c3 by (simp add: code_sample_lines)
  have p1: "splitlines (strip ''total 48\<newline>drwxr-xr-x'') \<noteq> []"
    by (simp add: plain_sample_lines)
  have "\<not> has_error_pattern ''total 48''" and "\<not> has_error_pattern ''drwxr-xr-x''"
    by (simp_all add: line_eval)
  then have p2: "error_lines (splitlines (strip ''total 48\<newline>drwxr-xr-x'')) = 0"
    by (simp add: plain_sample_lines error_lines_def)
  have "\<not> has_code_indicator ''total 48''" and "\<not> has_code_indicator ''drwxr-xr-x''"
    by (simp_all add: code_eval)
  then have p3: "code_lines (splitlines (strip ''total 48\<newline>drwxr-xr-x'')) = 0"
    by (simp add: plain_sample_lines code_lines_def)
  have p4: "10 * code_score_of (splitlines (strip ''total 48\<newline>drwxr-xr-x''))
        \<le> length (splitlines (strip ''total 48\<newline>drwxr-xr-x''))"
    using code_score_none[OF p3] by simp
  show ?thesis
    using c1 c2 c4 p1 p2 p3 p4
      detect_code_or_auto[OF c1 c2] detect_code_or_auto[OF p1 p2]
    by blast
qed

section \<open>Properties of the history store\<close>

lemma load_cached: "entries self = Some es \<Longrightarrow> load self = (Inr es, self)"
  by (simp add: load_def)

lemma load_Inr:
  assumes "load self = (Inr es, self1)"
  shows "entries self1 = Some es" and "history_file self1 = history_file self"
    and "writable self1 = writable self"
  using assms
  by (auto simp: load_def split: option.splits if_splits sum.splits)

lemma load_Inl:
  assumes "load self = (Inl err, self1)"
  shows "self1 = self" and "entries self = None"
  using assms
  by (auto simp: load_def split: option.splits if_splits sum.splits)

lemma loaded_cases:
  obtains es self1 where "load self = (Inr es, self1)"
  | err where "load self = (Inl err, self)"
proof (cases "load self")
  case (Pair r self1)
  show ?thesis
  proof (cases r)
    case (Inl err)
    with Pair load_Inl(1)[of self err self1] have "load self = (Inl err, self)" by simp
    then show ?thesis by (rule that(2))
  next
    case (Inr es)
    with Pair show ?thesis by (auto intro: that(1))
  qed
qed

lemma loaded_load:
  assumes "loaded self = Inr es"
  obtains self1 where "load self = (Inr es, self1)" "entries self1 = Some es"
    "history_file self1 = history_file self" "writable self1 = writable self"
proof -
  obtain r self1 where l: "load self = (r, self1)" by (cases "load self")
  with assms have "r = Inr es" by (simp add: loaded_def)
  with l have l': "load self = (Inr es, self1)" by simp
  show ?thesis using that[OF l' load_Inr[OF l']] .
qed

lemma loaded_cached: "entries self = Some es \<Longrightarrow> loaded self = Inr es"
  by (simp add: loaded_def load_cached)

lemma slice_from_most_recent: "0 < n \<Longrightarrow> slice_from (- int n) xs = most_recent n xs"
  by (auto simp: slice_from_def most_recent_def nat_diff_distrib' intro: arg_cong2[of _ _ _ _ drop])

lemma most_recent_all: "length xs \<le> n \<Longrightarrow> most_recent n xs = xs"
  by (simp add: most_recent_def)

lemma length_most_recent: "length (most_recent n xs) = min n (length xs)"
  by (simp add: most_recent_def)

lemma most_recent_append:
  "most_recent n (most_recent n xs @ ys) = most_recent n (xs @ ys)"
proof (cases "length xs \<le> n")
  case True
  then show ?thesis by (simp add: most_recent_def)
next
  case False
  define k where "k = length xs - n"
  have kn: "length xs = k + n" using False by (simp add: k_def)
  have left: "most_recent n xs = drop k xs"
    by (simp add: most_recent_def k_def)
  have "length (drop k xs) = n" using kn by simp
  then have a: "most_recent n (drop k xs @ ys) = drop (length ys) (drop k xs @ ys)"
    by (simp add: most_recent_def)
  have b: "drop k xs @ ys = drop k (xs @ ys)" using kn by simp
  have c: "drop (length ys) (drop k (xs @ ys)) = drop (length ys + k) (xs @ ys)"
    by (rule drop_drop)
  have d: "length ys + k = length (xs @ ys) - n" using kn by simp
  have "most_recent n (most_recent n xs @ ys) = most_recent n (drop k xs @ ys)"
    by (simp only: left)
  also have "\<dots> = drop (length ys) (drop k xs @ ys)" by (rule a)
  also have "\<dots> = drop (length ys) (drop k (xs @ ys))" by (simp only: b)
  also have "\<dots> = drop (length ys + k) (xs @ ys)" by (rule c)
  also have "\<dots> = drop (length (xs @ ys) - n) (xs @ ys)" by (simp only: d)
  also have "\<dots> = most_recent n (xs @ ys)" by (simp only: most_recent_def)
  finally show ?thesis .
qed

lemma save_cached:
  assumes "entries self = Some es"
  shows "save self =
     (if writable self
      then (Inr (), self\<lparr>entries := Some (most_recent MAX_ENTRIES es),
                          history_file := Readable (Document (JArr (map asdict
                            (most_recent MAX_ENTRIES es))))\<rparr>)
      else (Inl OSError, self\<lparr>entries := Some (most_recent MAX_ENTRIES es)\<rparr>))"
proof (cases "length es > MAX_ENTRIES")
  case True
  have "slice_from (- int MAX_ENTRIES) es = most_recent MAX_ENTRIES es"
    by (rule slice_from_most_recent) (simp add: MAX_ENTRIES_def)
  with True assms show ?thesis
    by (simp add: save_def load_cached Let_def)
next
  case False
  then have "most_recent MAX_ENTRIES es = es"
    by (simp add: most_recent_all)
  with False assms show ?thesis
    by (simp add: save_def load_cached Let_def)
qed

lemma add_loaded:
  assumes "loaded self = Inr es"
  shows "fst (add now ctype qry expl lang md self) = (if writable self then Inr () else Inl OSError)"
    and "entries (snd (add now ctype qry expl lang md self)) =
           Some (most_recent MAX_ENTRIES (es @ [new_entry now ctype qry expl lang md]))"
    and "history_file (snd (add now ctype qry expl lang md self)) =
           (if writable self
            then Readable (Document (JArr (map asdict
                   (most_recent MAX_ENTRIES (es @ [new_entry now ctype qry expl lang md])))))
            else history_file self)"
    and "writable (snd (add now ctype qry expl lang md self)) = writable self"
proof -
  from assms obtain self1 where l: "load self = (Inr es, self1)"
    and f: "history_file self1 = history_file self" and w: "writable self1 = writable self"
    by (rule loaded_load)
  let ?s = "self1\<lparr>entries := Some (es @ [new_entry now ctype qry expl lang md])\<rparr>"
  have a: "add now ctype qry expl lang md self = save ?s"
    using l by (simp add: add_def)
  have "entries ?s = Some (es @ [new_entry now ctype qry expl lang md])" by simp
  note sv = save_cached[OF this]
  show "fst (add now ctype qry expl lang md self) = (if writable self then Inr () else Inl OSError)"
    unfolding a sv using w by simp
  show "entries (snd (add now ctype qry expl lang md self)) =
           Some (most_recent MAX_ENTRIES (es @ [new_entry now ctype qry expl lang md]))"
    unfolding a sv by simp
  show "history_file (snd (add now ctype qry expl lang md self)) =
           (if writable self
            then Readable (Document (JArr (map asdict
                   (most_recent MAX_ENTRIES (es @ [new_entry now ctype qry expl lang md])))))
            else history_file self)"
    unfolding a sv using w f by simp
  show "writable (snd (add now ctype qry expl lang md self)) = writable self"
    unfolding a sv using w by simp
qed

lemma add_all_loaded:
  assumes "loaded self = Inr es" and "args \<noteq> []" and "writable self"
  shows "fst (add_all args self) = Inr ()
    \<and> entries (snd (add_all args self)) =
         Some (most_recent MAX_ENTRIES (es @ map entry_of_args args))
    \<and> history_file (snd (add_all args self)) =
         Readable (Document (JArr (map asdict
           (most_recent MAX_ENTRIES (es @ map entry_of_args args)))))"
  using assms
proof (induction args arbitrary: self es)
  case Nil
  then show ?case by simp
next
  case (Cons a rest)
  obtain now ctype qry expl lang md where a: "a = (now, ctype, qry, expl, lang, md)"
    by (cases a) auto
  define e where "e = new_entry now ctype qry expl lang md"
  define self1 where "self1 = snd (add now ctype qry expl lang md self)"
  have ea: "entry_of_args a = e" by (simp add: a e_def entry_of_args_def)
  have ok: "fst (add now ctype qry expl lang md self) = Inr ()"
    and en: "entries self1 = Some (most_recent MAX_ENTRIES (es @ [e]))"
    and fi: "history_file self1 =
      Readable (Document (JArr (map asdict (most_recent MAX_ENTRIES (es @ [e])))))"
    and wr: "writable self1"
    using add_loaded[OF Cons.prems(1), of now ctype qry expl lang md] Cons.prems(3)
    by (simp_all add: self1_def e_def)
  have step: "add_all (a # rest) self = add_all rest self1"
    using ok by (cases "add now ctype qry expl lang md self") (simp add: a self1_def)
  show ?case
  proof (cases "rest = []")
    case True
    then show ?thesis
      unfolding step using en fi by (simp add: ea)
  next
    case False
    have "loaded self1 = Inr (most_recent MAX_ENTRIES (es @ [e]))"
      using en by (rule loaded_cached)
    from Cons.IH[OF this False wr] show ?thesis
      unfolding step by (simp add: most_recent_append ea)
  qed
qed

lemma list_entries_loaded:
  assumes "loaded self = Inr es"
  shows "fst (list_entries limit ctype self) = Inr (slice_from (- limit) (by_type ctype es))"
    and "entries (snd (list_entries limit ctype self)) = Some es"
proof -
  from assms obtain self1 where "load self = (Inr es, self1)" "entries self1 = Some es"
    by (rule loaded_load)
  then show "fst (list_entries limit ctype self) = Inr (slice_from (- limit) (by_type ctype es))"
    and "entries (snd (list_entries limit ctype self)) = Some es"
    by (simp_all add: list_entries_def)
qed

lemma entry_matches_text:
  "has_text_fields e \<Longrightarrow> entry_matches (lower s) e = Inr (mentions s e)"
  by (auto simp: has_text_fields_def entry_matches_def mentions_def str_lower_def text_of_def
      split: json.splits)

lemma matching_text:
  "list_all has_text_fields es \<Longrightarrow> matching (lower s) es = Inr (filter (mentions s) es)"
  by (induction es) (simp_all add: entry_matches_text)

lemma search_loaded:
  assumes "loaded self = Inr es"
  shows "list_all has_text_fields es \<Longrightarrow>
           fst (search s limit self) = Inr (slice_from (- limit) (filter (mentions s) es))"
    and "entries (snd (search s limit self)) = Some es"
proof -
  from assms obtain self1 where l: "load self = (Inr es, self1)" "entries self1 = Some es"
    by (rule loaded_load)
  show "entries (snd (search s limit self)) = Some es"
    using l by (simp add: search_def split: sum.splits)
  assume "list_all has_text_fields es"
  then show "fst (search s limit self) = Inr (slice_from (- limit) (filter (mentions s) es))"
    using l by (simp add: search_def matching_text)
qed

lemma get_loaded:
  assumes "loaded self = Inr es"
  shows "fst (get i self) =
           (if es = [] \<or> i < 1 \<or> int (length es) < i then Inr None
            else Inr (Some (es ! (length es - nat i))))"
    and "entries (snd (get i self)) = Some es"
proof -
  from assms obtain self1 where l: "load self = (Inr es, self1)" "entries self1 = Some es"
    by (rule loaded_load)
  have g: "list_getitem es (- i) = Inr (es ! (length es - nat i))"
    if "1 \<le> i" "i \<le> int (length es)"
  proof -
    have "nat (int (length es) + - i) = length es - nat i" using that by linarith
    with that show ?thesis by (simp add: list_getitem_def)
  qed
  show "fst (get i self) =
           (if es = [] \<or> i < 1 \<or> int (length es) < i then Inr None
            else Inr (Some (es ! (length es - nat i))))"
    using l g by (simp add: get_def)
  show "entries (snd (get i self)) = Some es"
    using l g by (simp add: get_def split: sum.splits)
qed


lemma clear_result:
  "fst (clear self) = (if writable self then Inr () else Inl OSError)"
  and "loaded (snd (clear self)) = Inr []"
proof -
  have "entries (self\<lparr>entries := Some []\<rparr>) = Some []" by simp
  note sv = save_cached[OF this]
  show "fst (clear self) = (if writable self then Inr () else Inl OSError)"
    unfolding clear_def sv by simp
  show "loaded (snd (clear self)) = Inr []"
    unfolding clear_def sv by (simp add: loaded_cached most_recent_def)
qed

lemma slice_from_zero: "slice_from (- 0) xs = xs"
  by (simp add: slice_from_def)

lemma slice_from_limit: "1 \<le> limit \<Longrightarrow> slice_from (- limit) xs = most_recent (nat limit) xs"
  using slice_from_most_recent[of "nat limit" xs] by simp

lemma nth_most_recent:
  assumes "1 \<le> i" and "i \<le> int (length es)"
  shows "es ! (length es - nat i) = rev es ! (nat i - 1)"
proof -
  have "nat i - 1 < length es" using assms by linarith
  then have "rev es ! (nat i - 1) = es ! (length es - Suc (nat i - 1))"
    by (rule rev_nth)
  moreover have "Suc (nat i - 1) = nat i" using assms by linarith
  ultimately show ?thesis by simp
qed

lemma loaded_empty_store: "loaded empty_store = Inr []"
  by (simp add: loaded_def load_def empty_store_def)

lemma docker_entries:
  "loaded docker_store =
     Inr [new_entry 1 ''cmd'' ''docker run nginx'' ''Runs nginx container'' ''en'' None,
          new_entry 2 ''cmd'' ''git push origin main'' ''Pushes to main'' ''en'' None,
          new_entry 3 ''error'' ''docker: command not found'' ''Docker not installed'' ''en'' None]"
proof -
  have "docker_args \<noteq> []" by (simp add: docker_args_def)
  moreover have "writable empty_store" by (simp add: empty_store_def)
  ultimately have "fst (add_all docker_args empty_store) = Inr ()
    \<and> entries (snd (add_all docker_args empty_store)) =
         Some (most_recent MAX_ENTRIES ([] @ map entry_of_args docker_args))
    \<and> history_file (snd (add_all docker_args empty_store)) =
         Readable (Document (JArr (map asdict
           (most_recent MAX_ENTRIES ([] @ map entry_of_args docker_args)))))"
    by (rule add_all_loaded[OF loaded_empty_store])
  then
  have "entries docker_store = Some (most_recent MAX_ENTRIES ([] @ map entry_of_args docker_args))"
    by (simp add: docker_store_def)
  then have "loaded docker_store = Inr (most_recent MAX_ENTRIES ([] @ map entry_of_args docker_args))"
    by (rule loaded_cached)
  then show ?thesis
    by (simp add: docker_args_def entry_of_args_def most_recent_def MAX_ENTRIES_def)
qed

lemma docker_text_fields:
  "list_all has_text_fields
     [new_entry 1 ''cmd'' ''docker run nginx'' ''Runs nginx container'' ''en'' None,
      new_entry 2 ''cmd'' ''git push origin main'' ''Pushes to main'' ''en'' None,
      new_entry 3 ''error'' ''docker: command not found'' ''Docker not installed'' ''en'' None]"
  by (simp add: has_text_fields_def new_entry_def)

lemma docker_mentions:
  "mentions ''docker'' (new_entry 1 ''cmd'' ''docker run nginx'' ''Runs nginx container'' ''en'' None)"
  "\<not> mentions ''docker'' (new_entry 2 ''cmd'' ''git push origin main'' ''Pushes to main'' ''en'' None)"
  "mentions ''docker'' (new_entry 3 ''error'' ''docker: command not found'' ''Docker not installed'' ''en'' None)"
  by (simp_all add: mentions_def new_entry_def text_of_def text_eval)

text \<open>At capacity, one addition drops exactly the oldest entry.\<close>

lemma add_evicts_oldest:
  assumes "loaded self = Inr es" and "length es = 500"
  shows "loaded (snd (add now ctype qry expl lang md self)) =
           Inr (tl es @ [new_entry now ctype qry expl lang md])"
proof -
  have "es \<noteq> []" using assms(2) by auto
  then have "most_recent MAX_ENTRIES (es @ [new_entry now ctype qry expl lang md]) =
        tl es @ [new_entry now ctype qry expl lang md]"
    using assms(2) by (simp add: most_recent_def MAX_ENTRIES_def drop_Suc)
  with add_loaded(2)[OF assms(1), of now ctype qry expl lang md] show ?thesis
    by (simp add: loaded_cached)
qed











text \<open>
  Claim C5. For a store whose entries load as \<open>es\<close>, \<open>get(i)\<close> with \<open>1 \<le> i \<le> len(es)\<close>
  returns the i-th most recent entry, that is element \<open>i - 1\<close> of the reversed list;
  \<open>get(i)\<close> returns \<open>None\<close> for \<open>i < 1\<close> and for \<open>i\<close> beyond the number of entries; and
  \<open>get(1)\<close> right after an \<open>add\<close> returns the entry just added.
\<close>

theorem get_by_recency:
  assumes "loaded self = Inr es"
  shows "(1 \<le> i \<and> i \<le> int (length es)
            \<longrightarrow> fst (get i self) = Inr (Some (rev es ! (nat i - 1))))
    \<and> (i < 1 \<or> int (length es) < i \<longrightarrow> fst (get i self) = Inr None)
    \<and> fst (get 1 (snd (add now ctype qry expl lang md self)))
         = Inr (Some (new_entry now ctype qry expl lang md))"
proof -
  have a: "fst (get i self) = Inr (Some (rev es ! (nat i - 1)))"
    if "1 \<le> i" "i \<le> int (length es)"
  proof -
    have "es \<noteq> []" using that by auto
    with that show ?thesis
      unfolding get_loaded(1)[OF assms] by (simp add: nth_most_recent)
  qed
  have b: "fst (get i self) = Inr None" if "i < 1 \<or> int (length es) < i"
    unfolding get_loaded(1)[OF assms] using that by auto
  define e where "e = new_entry now ctype qry expl lang md"
  define es' where "es' = most_recent MAX_ENTRIES (es @ [e])"
  have "loaded (snd (add now ctype qry expl lang md self)) = Inr es'"
    using add_loaded(2)[OF assms, of now ctype qry expl lang md]
    unfolding es'_def e_def by (rule loaded_cached)
  note g = get_loaded(1)[OF this, of 1]
  have ne: "es' \<noteq> []"
    by (simp add: es'_def most_recent_def MAX_ENTRIES_def)
  have "es' ! (length es' - 1) = last es'"
    using ne by (simp add: last_conv_nth)
  also have "\<dots> = e"
    by (simp add: es'_def most_recent_def MAX_ENTRIES_def)
  finally have "fst (get 1 (snd (add now ctype qry expl lang md self))) = Inr (Some e)"
    using g ne by (cases es') auto
  with a b show ?thesis unfolding e_def by blast
qed


text \<open>
  Witness for C5, on the store of the three sample additions: index 1 is the third
  addition, index 3 the first, indices 0 and 4 are not found, and a fourth addition is
  found at index 1.
\<close>

theorem get_by_recency_witness:
  "loaded docker_store =
     Inr [new_entry 1 ''cmd'' ''docker run nginx'' ''Runs nginx container'' ''en'' None,
          new_entry 2 ''cmd'' ''git push origin main'' ''Pushes to main'' ''en'' None,
          new_entry 3 ''error'' ''docker: command not found'' ''Docker not installed'' ''en'' None]
   \<and> fst (get 1 docker_store) =
       Inr (Some (new_entry 3 ''error'' ''docker: command not found'' ''Docker not installed'' ''en'' None))
   \<and> fst (get 3 docker_store) =
       Inr (Some (new_entry 1 ''cmd'' ''docker run nginx'' ''Runs nginx container'' ''en'' None))
   \<and> fst (get 0 docker_store) = Inr None
   \<and> fst (get 4 docker_store) = Inr None
   \<and> fst (get 1 (snd (add 4 ''cmd'' ''ls'' ''Lists files'' ''en'' None docker_store)))
       = Inr (Some (new_entry 4 ''cmd'' ''ls'' ''Lists files'' ''en'' None))"
  using docker_entries
    get_by_recency[OF docker_entries, of 1 4 "''cmd''" "''ls''" "''Lists files''" "''en''" None]
    get_by_recency[OF docker_entries, of 3]
    get_by_recency[OF docker_entries, of 0]
    get_by_recency[OF docker_entries, of 4]
  by simp

text \<open>
  Claim C6, as amended. For a store whose entries load as \<open>es\<close>, all with a text as query
  and as explanation, and for every limit of at least 1, \<open>search(s, limit)\<close> returns the
  entries that mention \<open>s\<close> case-insensitively in the query or the explanation, in insertion
  order, keeping the \<open>limit\<close> most recent of them; so at most \<open>limit\<close> entries.
\<close>

theorem search_returns_recent_matches:
  assumes "loaded self = Inr es" and "list_all has_text_fields es" and "1 \<le> limit"
  shows "fst (search s limit self) = Inr (most_recent (nat limit) (filter (mentions s) es))
    \<and> int (length (most_recent (nat limit) (filter (mentions s) es))) \<le> limit"
proof -
  have "fst (search s limit self) = Inr (most_recent (nat limit) (filter (mentions s) es))"
    using search_loaded(1)[OF assms(1,2)] slice_from_limit[OF assms(3)] by simp
  moreover have "int (length (most_recent (nat limit) (filter (mentions s) es))) \<le> limit"
    using assms(3) by (simp add: length_most_recent)
  ultimately show ?thesis by simp
qed

text \<open>
  Witness for C6: over the three sample additions, searching for \<open>docker\<close> returns the
  first and the third with limit 20, and the third alone with limit 1.
\<close>

theorem search_returns_recent_matches_witness:
  "loaded docker_store =
     Inr [new_entry 1 ''cmd'' ''docker run nginx'' ''Runs nginx container'' ''en'' None,
          new_entry 2 ''cmd'' ''git push origin main'' ''Pushes to main'' ''en'' None,
          new_entry 3 ''error'' ''docker: command not found'' ''Docker not installed'' ''en'' None]
   \<and> list_all has_text_fields
     [new_entry 1 ''cmd'' ''docker run nginx'' ''Runs nginx container'' ''en'' None,
      new_entry 2 ''cmd'' ''git push origin main'' ''Pushes to main'' ''en'' None,
      new_entry 3 ''error'' ''docker: command not found'' ''Docker not installed'' ''en'' None]
   \<and> (1::int) \<le> 20
   \<and> fst (search ''docker'' 20 docker_store) =
       Inr [new_entry 1 ''cmd'' ''docker run nginx'' ''Runs nginx container'' ''en'' None,
            new_entry 3 ''error'' ''docker: command not found'' ''Docker not installed'' ''en'' None]
   \<and> fst (search ''docker'' 1 docker_store) =
       Inr [new_entry 3 ''error'' ''docker: command not found'' ''Docker not installed'' ''en'' None]"
proof -
  have l20: "(1::int) \<le> 20" and l1: "(1::int) \<le> 1" by simp_all
  show ?thesis
    using docker_entries docker_text_fields
      search_returns_recent_matches[OF docker_entries docker_text_fields l20, of "''docker''"]
      search_returns_recent_matches[OF docker_entries docker_text_fields l1, of "''docker''"]
    by (simp add: docker_mentions most_recent_def)
qed

text \<open>
  Counterexample to C6 as stated: with limit 0 the search for \<open>docker\<close> over the three
  sample additions returns both matches, which is more than the limit.
\<close>

theorem search_limit_zero_counterexample:
  "fst (search ''docker'' 0 docker_store) =
       Inr [new_entry 1 ''cmd'' ''docker run nginx'' ''Runs nginx container'' ''en'' None,
            new_entry 3 ''error'' ''docker: command not found'' ''Docker not installed'' ''en'' None]
   \<and> \<not> int (length
       [new_entry 1 ''cmd'' ''docker run nginx'' ''Runs nginx container'' ''en'' None,
        new_entry 3 ''error'' ''docker: command not found'' ''Docker not installed'' ''en'' None]) \<le> 0"
  using search_loaded(1)[OF docker_entries docker_text_fields, of "''docker''" 0]
  by (simp add: docker_mentions slice_from_def)

text \<open>
  Claim C10. For a store whose entries load as \<open>es\<close>: \<open>list_entries\<close> with limit 0 returns
  all entries of the selected type, and with a limit of at least 1 at most that many;
  when all entries have a text as query and as explanation, \<open>search\<close> with limit 0 returns
  all matching entries, and with a limit of at least 1 at most that many.
\<close>

theorem limit_zero_returns_all:
  assumes "loaded self = Inr es"
  shows "fst (list_entries 0 ctype self) = Inr (by_type ctype es)
    \<and> (1 \<le> limit \<longrightarrow>
         (\<exists>r. fst (list_entries limit ctype self) = Inr r \<and> int (length r) \<le> limit))
    \<and> (list_all has_text_fields es \<longrightarrow>
         fst (search s 0 self) = Inr (filter (mentions s) es)
         \<and> (1 \<le> limit \<longrightarrow>
              (\<exists>r. fst (search s limit self) = Inr r \<and> int (length r) \<le> limit)))"
proof -
  have a: "fst (list_entries 0 ctype self) = Inr (by_type ctype es)"
    using list_entries_loaded(1)[OF assms, of 0 ctype] by (simp add: slice_from_def)
  have b: "\<exists>r. fst (list_entries limit ctype self) = Inr r \<and> int (length r) \<le> limit"
    if "1 \<le> limit"
    using list_entries_loaded(1)[OF assms, of limit ctype] that
    by (simp add: slice_from_limit length_most_recent)
  have c: "fst (search s 0 self) = Inr (filter (mentions s) es)"
    if "list_all has_text_fields es"
    using search_loaded(1)[OF assms that, of s 0] by (simp add: slice_from_def)
  have d: "\<exists>r. fst (search s limit self) = Inr r \<and> int (length r) \<le> limit"
    if "list_all has_text_fields es" "1 \<le> limit"
    using search_loaded(1)[OF assms that(1), of s limit] that(2)
    by (simp add: slice_from_limit length_most_recent)
  show ?thesis using a b c d by blast
qed

text \<open>
  Witness for C10, on the store of the three sample additions: limit 0 lists all three
  entries and finds both matches; limit 2 gives at most two.
\<close>

theorem limit_zero_returns_all_witness:
  "fst (list_entries 0 None docker_store) =
     Inr [new_entry 1 ''cmd'' ''docker run nginx'' ''Runs nginx container'' ''en'' None,
          new_entry 2 ''cmd'' ''git push origin main'' ''Pushes to main'' ''en'' None,
          new_entry 3 ''error'' ''docker: command not found'' ''Docker not installed'' ''en'' None]
   \<and> (1::int) \<le> 2
   \<and> (\<exists>r. fst (list_entries 2 None docker_store) = Inr r \<and> int (length r) \<le> 2)
   \<and> fst (search ''docker'' 0 docker_store) =
       Inr [new_entry 1 ''cmd'' ''docker run nginx'' ''Runs nginx container'' ''en'' None,
            new_entry 3 ''error'' ''docker: command not found'' ''Docker not installed'' ''en'' None]
   \<and> (\<exists>r. fst (search ''docker'' 2 docker_store) = Inr r \<and> int (length r) \<le> 2)"
proof -
  have l2: "(1::int) \<le> 2" by simp
  show ?thesis
    using docker_text_fields l2
      limit_zero_returns_all[OF docker_entries, of None 2 "''docker''"]
    by (simp add: docker_mentions by_type_def)
qed

text \<open>
  Claim C3. The specification asks that a missing, unreadable or corrupt file make the
  store behave as empty without raising. \<open>_load\<close> catches \<open>JSONDecodeError\<close>, \<open>TypeError\<close>
  and \<open>KeyError\<close> only: when the file exists but cannot be read, the error of \<open>read_text\<close>
  leaves \<open>count\<close>, \<open>list_entries\<close>, \<open>search\<close>, \<open>get\<close> and \<open>add\<close>. And a document whose
  entry has the right keys but a null query is loaded as one entry, not as an empty
  store, and a search over it raises \<open>AttributeError\<close>.
\<close>

theorem unreadable_history_raises:
  "fst (count unreadable_store) = Inl OSError
   \<and> fst (list_entries 20 None unreadable_store) = Inl OSError
   \<and> fst (search ''a'' 20 unreadable_store) = Inl OSError
   \<and> fst (get 1 unreadable_store) = Inl OSError
   \<and> fst (add 0 ''cmd'' ''ls'' ''x'' ''en'' None unreadable_store) = Inl OSError
   \<and> fst (count null_query_store) = Inr 1
   \<and> fst (search ''a'' 20 null_query_store) = Inl AttributeError"
proof -
  have u: "load unreadable_store = (Inl OSError, unreadable_store)"
    by (simp add: load_def unreadable_store_def read_entries_def read_text_def)
  have n: "load null_query_store =
     (Inr [\<lparr> timestamp = JNum 0, command_type = JStr ''cmd'', query = JNull,
             explanation = JStr ''x'', language = JStr ''en'', metadata = JObj [] \<rparr>],
      null_query_store\<lparr>entries := Some
        [\<lparr> timestamp = JNum 0, command_type = JStr ''cmd'', query = JNull,
           explanation = JStr ''x'', language = JStr ''en'', metadata = JObj [] \<rparr>]\<rparr>)"
    by (simp add: load_def null_query_store_def read_entries_def read_text_def json_loads_def
        iterate_def HistoryEntry_of_def field_names_def)
  show ?thesis
    unfolding count_def list_entries_def search_def get_def add_def u n
    by (simp add: entry_matches_def str_lower_def)
qed

text \<open>
  The states in which the store does behave as empty: no file, a file that is not JSON,
  and a document that is not iterable or has an element of the wrong shape.
\<close>

lemma corrupt_history_is_empty:
  assumes "entries self = None"
    and "history_file self = Missing \<or> history_file self = Readable Not_JSON
         \<or> (\<exists>d. history_file self = Readable (Document d)
               \<and> (iterate d = Inl TypeError
                    \<or> (\<exists>xs. iterate d = Inr xs \<and> entries_of xs = Inl TypeError)))"
  shows "loaded self = Inr []"
  using assms
  by (auto simp: loaded_def load_def read_entries_def read_text_def json_loads_def)


section \<open>Properties of the pipe command handler\<close>
















section \<open>Properties of the backend call\<close>

lemma post_replying: "post messages (replying resp) = (Inr resp, (replying resp)\<lparr>requests := 1\<rparr>)"
  by (simp add: post_def replying_def)

lemma ask_messages_status:
  assumes "token \<noteq> None" and "token \<noteq> Some []"
    and "outcome net (requests net) = Inr resp" and "status_code resp \<noteq> 200"
  shows "ask_messages token messages net =
     (Inl (CopilotCLIError (Http_status (status_code resp) (take 300 (body_text resp)))),
      net\<lparr>requests := requests net + 1\<rparr>)"
  using assms by (simp add: ask_messages_def post_def)

lemma ask_messages_one_request:
  assumes "token \<noteq> None" and "token \<noteq> Some []"
  shows "requests (snd (ask_messages token messages net)) = requests net + 1"
  using assms
  by (simp add: ask_messages_def post_def split: sum.splits exn.splits)

lemma ask_messages_missing_field:
  assumes "token \<noteq> None" and "token \<noteq> Some []"
    and "outcome net (requests net) = Inr resp" and "status_code resp = 200"
    and "read_reply resp = Inl KeyError \<or> read_reply resp = Inl IndexError"
  shows "\<exists>reason. fst (ask_messages token messages net) = Inl (CopilotCLIError (Parse_failure reason))"
  using assms by (auto simp: ask_messages_def post_def)

text \<open>
  Claim C9. The specification asks that a non-200 reply and a malformed body both fail
  with a \<open>CopilotCLIError\<close>, after a single request. The non-200 reply does, with the
  status code and the first 300 characters of the body, and so does a reply without
  choices; every call makes one request. But the \<open>except\<close> clause catches \<open>KeyError\<close> and
  \<open>IndexError\<close> only: a body that is not JSON leaves \<open>ask_messages\<close> as
  \<open>JSONDecodeError\<close>, a body that is a JSON list as \<open>TypeError\<close>, and a null content as
  \<open>AttributeError\<close>, none of which is a \<open>CopilotCLIError\<close>.
\<close>

theorem malformed_body_escapes:
  "fst (ask_messages (Some ''token'') [(''user'', ''hi'')] (replying html_reply)) = Inl JSONDecodeError
   \<and> \<not> is_CopilotCLIError JSONDecodeError
   \<and> fst (ask_messages (Some ''token'') [(''user'', ''hi'')] (replying list_reply)) = Inl TypeError
   \<and> \<not> is_CopilotCLIError TypeError
   \<and> fst (ask_messages (Some ''token'') [(''user'', ''hi'')] (replying null_content_reply))
       = Inl AttributeError
   \<and> \<not> is_CopilotCLIError AttributeError
   \<and> fst (ask_messages (Some ''token'') [(''user'', ''hi'')] (replying no_choices_reply))
       = Inl (CopilotCLIError (Parse_failure Missing_key))
   \<and> ask_messages (Some ''token'') [(''user'', ''hi'')] (replying bad_gateway_reply)
       = (Inl (CopilotCLIError (Http_status 502 ''Bad Gateway'')),
          (replying bad_gateway_reply)\<lparr>requests := 1\<rparr>)"
proof -
  have a: "fst (ask_messages (Some ''token'') [(''user'', ''hi'')] (replying html_reply)) = Inl JSONDecodeError"
    by (simp add: ask_messages_def post_replying read_reply_def html_reply_def)
  have b: "fst (ask_messages (Some ''token'') [(''user'', ''hi'')] (replying list_reply)) = Inl TypeError"
    by (simp add: ask_messages_def post_replying read_reply_def list_reply_def
        py_contains_def getitem_key_def)
  have c: "fst (ask_messages (Some ''token'') [(''user'', ''hi'')] (replying null_content_reply))
       = Inl AttributeError"
    by (simp add: ask_messages_def post_replying read_reply_def null_content_reply_def
        py_contains_def getitem_key_def getitem_0_def list_getitem_def str_strip_def)
  have d: "fst (ask_messages (Some ''token'') [(''user'', ''hi'')] (replying no_choices_reply))
       = Inl (CopilotCLIError (Parse_failure Missing_key))"
    by (simp add: ask_messages_def post_replying read_reply_def no_choices_reply_def
        py_contains_def getitem_key_def)
  have e: "ask_messages (Some ''token'') [(''user'', ''hi'')] (replying bad_gateway_reply)
       = (Inl (CopilotCLIError (Http_status 502 ''Bad Gateway'')),
          (replying bad_gateway_reply)\<lparr>requests := 1\<rparr>)"
    by (simp add: ask_messages_def post_replying bad_gateway_reply_def)
  show ?thesis
    using a b c d e by (simp add: is_CopilotCLIError_def)
qed

end
